theory Spec2Isabelle
  imports Complex_Main "HOL-Library.Sublist" "HOL-Library.Char_ord" "HOL-Library.List_Lexorder"
begin

section \<open>Python string primitives\<close>

text \<open>
  Python \<open>str\<close> values are modelled as \<open>string\<close> (lists of \<open>char\<close>) over ASCII text.
  The case conversions below change the 26 ASCII letters and leave every other character
  alone; whitespace is the ASCII whitespace that \<open>str.strip()\<close>, \<open>str.isspace()\<close> and the
  regular-expression class \<open>\s\<close> agree on; digits are \<open>0\<close> to \<open>9\<close>.
\<close>

definition is_space :: "char \<Rightarrow> bool" where
  "is_space c = (c \<in> set [CHR '' '', CHR 0x09, CHR 0x0A, CHR 0x0B, CHR 0x0C, CHR 0x0D,
                            CHR 0x1C, CHR 0x1D, CHR 0x1E, CHR 0x1F])"

definition is_digit :: "char \<Rightarrow> bool" where
  "is_digit c = (c \<in> set ''0123456789'')"

definition is_digit_or_dot :: "char \<Rightarrow> bool" where
  "is_digit_or_dot c = (is_digit c \<or> c = CHR ''.'')"

definition lower_letters :: string where
  "lower_letters = ''abcdefghijklmnopqrstuvwxyz''"

definition upper_letters :: string where
  "upper_letters = ''ABCDEFGHIJKLMNOPQRSTUVWXYZ''"

definition upper_char :: "char \<Rightarrow> char" where
  "upper_char c = (case map_of (zip lower_letters upper_letters) c of Some d \<Rightarrow> d | None \<Rightarrow> c)"

definition lower_char :: "char \<Rightarrow> char" where
  "lower_char c = (case map_of (zip upper_letters lower_letters) c of Some d \<Rightarrow> d | None \<Rightarrow> c)"

definition str_upper :: "string \<Rightarrow> string" where
  "str_upper s = map upper_char s"

definition str_lower :: "string \<Rightarrow> string" where
  "str_lower s = map lower_char s"

definition str_strip :: "string \<Rightarrow> string" where
  "str_strip s = rev (dropWhile is_space (rev (dropWhile is_space s)))"

text \<open>\<open>s.split(sep)\<close> for a one-character separator: every separator cuts, empty pieces are
  kept, and the empty string gives one empty piece.\<close>

fun str_split :: "char \<Rightarrow> string \<Rightarrow> string list" where
  "str_split sep [] = [[]]"
| "str_split sep (c # cs) =
     (if c = sep then [] # str_split sep cs
      else (case str_split sep cs of [] \<Rightarrow> [[c]] | w # ws \<Rightarrow> (c # w) # ws))"

text \<open>\<open>pat in s\<close> on strings: \<open>pat\<close> occurs in \<open>s\<close> as a contiguous substring.\<close>

fun str_contains :: "string \<Rightarrow> string \<Rightarrow> bool" where
  "str_contains pat [] = (pat = [])"
| "str_contains pat (c # cs) = (prefix pat (c # cs) \<or> str_contains pat cs)"

text \<open>\<open>s.isdigit()\<close>: at least one character and all of them digits.\<close>

definition str_isdigit :: "string \<Rightarrow> bool" where
  "str_isdigit s = (s \<noteq> [] \<and> list_all is_digit s)"

definition digit_val :: "char \<Rightarrow> nat" where
  "digit_val c = (case map_of (zip ''0123456789'' [0, 1, 2, 3, 4, 5, 6, 7, 8, 9]) c of
                    Some d \<Rightarrow> d | None \<Rightarrow> 0)"

text \<open>\<open>int(s)\<close> on a string of decimal digits.\<close>

definition int_of_digits :: "string \<Rightarrow> nat" where
  "int_of_digits s = foldl (\<lambda>a c. 10 * a + digit_val c) 0 s"

text \<open>
  \<open>float(s)\<close> on a string over the alphabet \<open>[0-9.]\<close>, the only strings the source passes to
  it: digits, at most one point, at least one digit; anything else is Python's
  \<open>ValueError\<close>, here \<open>None\<close>. Frequencies are modelled as exact rationals: the value is
  the decimal numeral read exactly.
\<close>

definition float_of_decimal :: "string \<Rightarrow> rat option" where
  "float_of_decimal s =
     (let ip = takeWhile is_digit s; rest = dropWhile is_digit s in
      case rest of
        [] \<Rightarrow> if ip = [] then None else Some (of_nat (int_of_digits ip))
      | c # fp \<Rightarrow>
          if c = CHR ''.'' \<and> list_all is_digit fp \<and> (ip \<noteq> [] \<or> fp \<noteq> [])
          then Some (of_nat (int_of_digits (ip @ fp)) / 10 ^ length fp)
          else None)"

text \<open>
  \<open>re.search(KEY + '([CLASS]+)', s)\<close> for a literal \<open>KEY\<close> and a character class: the
  leftmost position where \<open>KEY\<close> is followed by at least one character of the class; the
  group is the longest run of class characters there. The source uses it with
  \<open>AF=([0-9.]+)\<close>, \<open>AC=([0-9]+)\<close> and \<open>AN=([0-9]+)\<close>.
\<close>

fun re_search_group :: "string \<Rightarrow> (char \<Rightarrow> bool) \<Rightarrow> string \<Rightarrow> string option" where
  "re_search_group key cls [] = None"
| "re_search_group key cls (c # cs) =
     (if prefix key (c # cs) \<and> takeWhile cls (drop (length key) (c # cs)) \<noteq> []
      then Some (takeWhile cls (drop (length key) (c # cs)))
      else re_search_group key cls cs)"

section \<open>Population frequency database (layer 4)\<close>

datatype py_error = ValueError

record allele_freq =
  ref :: string
  alt :: string
  global_af :: rat

text \<open>The table \<open>allele_freqs\<close>, keyed by its primary key \<open>rsid\<close>. SQLite compares
  \<open>TEXT\<close> keys byte by byte, so the key is the string as stored.\<close>

type_synonym freq_db = "string \<rightharpoonup> allele_freq"

definition extract_af_from_info :: "string \<Rightarrow> rat option" where
  "extract_af_from_info info =
     (case re_search_group ''AF='' is_digit_or_dot info of
        Some g \<Rightarrow> float_of_decimal g
      | None \<Rightarrow> None)"

definition derive_af_from_info :: "string \<Rightarrow> rat option" where
  "derive_af_from_info info =
     (case re_search_group ''AC='' is_digit info of
        None \<Rightarrow> None
      | Some a \<Rightarrow>
          (case re_search_group ''AN='' is_digit info of
             None \<Rightarrow> None
           | Some n \<Rightarrow>
               (let ac = int_of_digits a; an = int_of_digits n in
                if an > 0 then Some (of_nat ac / of_nat an) else None)))"

text \<open>The frequency a data line gets in \<open>_parse_vcf_streaming\<close>: the direct value, and
  the derived one only when there is no direct value.\<close>

definition info_frequency :: "string \<Rightarrow> rat option" where
  "info_frequency info =
     (case extract_af_from_info info of
        None \<Rightarrow> derive_af_from_info info
      | Some af \<Rightarrow> Some af)"

text \<open>The body of the loop of \<open>_parse_vcf_streaming\<close> for one non-blank line: the record
  appended to the batch, or \<open>None\<close> where the source continues with the next line.\<close>

definition vcf_record :: "string \<Rightarrow> (string \<times> allele_freq) option" where
  "vcf_record line =
     (let fields = str_split (CHR 0x09) (str_strip line) in
      if length fields < 8 then None
      else let rsid_field = fields ! 2 in
      if \<not> prefix ''rs'' rsid_field then None
      else let rsid = str_strip (hd (str_split (CHR '';'') rsid_field)) in
      if rsid = [] \<or> \<not> prefix ''rs'' rsid then None
      else (case info_frequency (fields ! 7) of
              None \<Rightarrow> None
            | Some af \<Rightarrow>
                Some (rsid, \<lparr>ref = fields ! 3,
                             alt = hd (str_split (CHR '','') (fields ! 4)),
                             global_af = af\<rparr>)))"

text \<open>\<open>INSERT OR REPLACE\<close> of a batch, row by row.\<close>

definition insert_batch :: "freq_db \<Rightarrow> (string \<times> allele_freq) list \<Rightarrow> freq_db" where
  "insert_batch db batch = foldl (\<lambda>d (k, r). d(k \<mapsto> r)) db batch"

fun vcf_lines :: "string list \<Rightarrow> (string \<times> allele_freq) list \<Rightarrow> freq_db \<Rightarrow> freq_db" where
  "vcf_lines [] batch db = (if batch \<noteq> [] then insert_batch db batch else db)"
| "vcf_lines (line # ls) batch db =
     (if str_strip line = [] then vcf_lines ls batch db
      else (case vcf_record line of
              None \<Rightarrow> vcf_lines ls batch db
            | Some r \<Rightarrow>
                (let batch' = batch @ [r] in
                 if length batch' \<ge> 1000 then vcf_lines ls [] (insert_batch db batch')
                 else vcf_lines ls batch' db)))"

text \<open>The file is its list of lines; everything up to and including the first line that
  starts with \<open>#CHROM\<close> is skipped.\<close>

definition parse_vcf_streaming :: "string list \<Rightarrow> freq_db \<Rightarrow> freq_db" where
  "parse_vcf_streaming file db =
     vcf_lines (drop 1 (dropWhile (\<lambda>l. \<not> prefix ''#CHROM'' l) file)) [] db"

definition get_frequency :: "freq_db \<Rightarrow> string \<Rightarrow> rat option" where
  "get_frequency db rsid = map_option global_af (db (str_upper rsid))"

text \<open>The rows of \<open>SELECT rsid, global_af FROM allele_freqs WHERE rsid IN (params)\<close>, as
  the dictionary the source builds from them: stored key to stored frequency.\<close>

definition select_in :: "freq_db \<Rightarrow> string list \<Rightarrow> (string \<rightharpoonup> rat option)" where
  "select_in db params =
     (\<lambda>k. if k \<in> set params then map_option (\<lambda>r. Some (global_af r)) (db k) else None)"

text \<open>The loop \<open>for i in range(0, total_rsids, chunk_size)\<close>, from index \<open>i\<close> on.\<close>

function query_chunks ::
  "freq_db \<Rightarrow> nat \<Rightarrow> string list \<Rightarrow> nat \<Rightarrow> (string \<rightharpoonup> rat option) \<Rightarrow> (string \<rightharpoonup> rat option)" where
  "query_chunks db chunk_size rsids i results =
     (if chunk_size = 0 \<or> length rsids \<le> i then results
      else query_chunks db chunk_size rsids (i + chunk_size)
             (results ++ select_in db (map str_upper (take chunk_size (drop i rsids)))))"
  by pat_completeness auto
termination
  by (relation "measure (\<lambda>(db, chunk_size, rsids, i, results). length rsids - i)") auto

text \<open>The loop that fills in \<open>None\<close>: the test looks for the upper-cased spelling, the
  entry is stored under the spelling as requested.\<close>

fun fill_missing :: "string list \<Rightarrow> (string \<rightharpoonup> rat option) \<Rightarrow> (string \<rightharpoonup> rat option)" where
  "fill_missing [] results = results"
| "fill_missing (rsid # rest) results =
     fill_missing rest
       (if results (str_upper rsid) = None then results(rsid \<mapsto> None) else results)"


definition get_frequencies_batch ::
  "freq_db \<Rightarrow> nat \<Rightarrow> string list \<Rightarrow> py_error + (string \<rightharpoonup> rat option)" where
  "get_frequencies_batch db chunk_size rsids =
     (if rsids = [] then Inr Map.empty
      else if chunk_size = 0 then Inl ValueError
      else Inr (fill_missing rsids (query_chunks db chunk_size rsids 0 Map.empty)))"

section \<open>Clinical annotation (layer 1)\<close>

text \<open>\<open>sep.join(xs)\<close>; used to write tab-separated lines.\<close>

definition str_join :: "string \<Rightarrow> string list \<Rightarrow> string" where
  "str_join sep xs = (case xs of [] \<Rightarrow> [] | y # ys \<Rightarrow> foldl (\<lambda>acc x. acc @ sep @ x) y ys)"

definition tsv :: "string list \<Rightarrow> string" where
  "tsv cells = str_join [CHR 0x09] cells"

text \<open>\<open>xs.index(x)\<close> where \<open>x\<close> is in the list.\<close>

fun index_of :: "'a \<Rightarrow> 'a list \<Rightarrow> nat option" where
  "index_of x [] = None"
| "index_of x (y # ys) = (if x = y then Some 0 else map_option Suc (index_of x ys))"

text \<open>\<open>_find_column_index\<close>: the first loop (exact match), the inner and the outer loop of
  the second (containment either way), and the function itself.\<close>

fun find_exact :: "string list \<Rightarrow> string list \<Rightarrow> nat option" where
  "find_exact columns_lower [] = None"
| "find_exact columns_lower (name # names) =
     (let name_lower = str_strip (str_lower name) in
      if name_lower \<in> set columns_lower then index_of name_lower columns_lower
      else find_exact columns_lower names)"

fun find_partial_column :: "string \<Rightarrow> string list \<Rightarrow> nat \<Rightarrow> nat option" where
  "find_partial_column name_lower [] idx = None"
| "find_partial_column name_lower (col # cols) idx =
     (if str_contains name_lower col \<or> str_contains col name_lower then Some idx
      else find_partial_column name_lower cols (Suc idx))"

fun find_partial :: "string list \<Rightarrow> string list \<Rightarrow> nat option" where
  "find_partial columns_lower [] = None"
| "find_partial columns_lower (name # names) =
     (case find_partial_column (str_strip (str_lower name)) columns_lower 0 of
        Some idx \<Rightarrow> Some idx
      | None \<Rightarrow> find_partial columns_lower names)"

definition find_column_index :: "string list \<Rightarrow> string list \<Rightarrow> nat option" where
  "find_column_index columns possible_names =
     (let columns_lower = map (\<lambda>c. str_strip (str_lower c)) columns in
      case find_exact columns_lower possible_names of
        Some idx \<Rightarrow> Some idx
      | None \<Rightarrow> find_partial columns_lower possible_names)"

definition rsid_patterns :: "string list" where
  "rsid_patterns =
     [''rs# (dbsnp)'', ''rs#'', ''rs_id'', ''rsid'', ''snp'', ''rs (dbsnp)'',
      ''rs(dbsnp)'', ''reference snp'', ''refsnp_id'', ''dbsnp rs'', ''rs number'']"

definition significance_patterns :: "string list" where
  "significance_patterns =
     [''clinicalsignificance'', ''clinical significance'', ''clinical_significance'',
      ''significance'', ''clinical significance (last reviewed)'', ''review status'']"

definition phenotype_patterns :: "string list" where
  "phenotype_patterns =
     [''phenotypelist'', ''phenotype list'', ''phenotype_list'', ''phenotypes'',
      ''condition'', ''disease name'', ''condition/disease'', ''disease/phenotype'']"

definition rcv_patterns :: "string list" where
  "rcv_patterns =
     [''rcvaccession'', ''rcv accession'', ''rcv_accession'', ''accession'',
      ''rcv'', ''review accession'', ''variant accession'']"

text \<open>\<open>re.sub(r'\s*\([^)]*\)', '', s)\<close>: from left to right, a run of whitespace followed by
  an opening parenthesis is removed up to and including the next closing parenthesis, if
  there is one; otherwise the character is kept.\<close>

function re_sub_parens :: "string \<Rightarrow> string" where
  "re_sub_parens [] = []"
| "re_sub_parens (c # cs) =
     (case dropWhile is_space (c # cs) of
        [] \<Rightarrow> c # re_sub_parens cs
      | p # r \<Rightarrow>
          if p = CHR ''('' \<and> CHR '')'' \<in> set r
          then re_sub_parens (drop 1 (dropWhile (\<lambda>x. x \<noteq> CHR '')'') r))
          else c # re_sub_parens cs)"
  by pat_completeness auto
termination
proof (relation "measure length")
  show "wf (measure length)" by simp
next
  fix c :: char and cs :: string
  show "(cs, c # cs) \<in> measure length" by simp
next
  fix c p :: char and cs r :: string
  assume a: "dropWhile is_space (c # cs) = p # r"
  have "length (dropWhile (\<lambda>x. x \<noteq> CHR '')'') r) \<le> length r"
    by (rule length_dropWhile_le)
  moreover have "length (p # r) \<le> length (c # cs)"
    using length_dropWhile_le [of is_space "c # cs"] a by simp
  ultimately show "(drop 1 (dropWhile (\<lambda>x. x \<noteq> CHR '')'') r), c # cs) \<in> measure length"
    by simp
next
  fix c p :: char and cs r :: string
  show "(cs, c # cs) \<in> measure length" by simp
qed

text \<open>The identifier of a row, from its cell to the upper-cased key; \<open>None\<close> where the
  source skips the row.\<close>

definition normalize_rsid :: "string \<Rightarrow> string option" where
  "normalize_rsid cell =
     (let rsid = str_strip cell in
      if rsid = [] then None
      else let rsid = str_strip (re_sub_parens rsid) in
      if prefix ''rs'' rsid then Some (str_upper rsid)
      else if str_isdigit rsid then Some (str_upper (''rs'' @ rsid))
      else (case re_search_group [] is_digit rsid of
              Some number \<Rightarrow> Some (str_upper (''rs'' @ number))
            | None \<Rightarrow> None))"

type_synonym annotation = "string \<rightharpoonup> string"

type_synonym clinvar_cache = "string \<rightharpoonup> annotation"

text \<open>\<open>fields[idx].strip() if idx and idx < len(fields) else ""\<close>: the index is tested for
  truth, and both \<open>None\<close> and \<open>0\<close> are false.\<close>

definition column_value :: "nat option \<Rightarrow> string list \<Rightarrow> string" where
  "column_value idx row_fields =
     (case idx of
        None \<Rightarrow> []
      | Some i \<Rightarrow> if i \<noteq> 0 \<and> i < length row_fields then str_strip (row_fields ! i) else [])"

definition clinvar_row ::
  "nat \<Rightarrow> nat option \<Rightarrow> nat option \<Rightarrow> nat option \<Rightarrow> string \<Rightarrow> clinvar_cache \<Rightarrow> clinvar_cache" where
  "clinvar_row rsid_idx significance_idx phenotype_idx rcv_idx line cache =
     (let fields = str_split (CHR 0x09) (str_strip line) in
      if length fields \<le> rsid_idx then cache
      else (case normalize_rsid (fields ! rsid_idx) of
              None \<Rightarrow> cache
            | Some rsid \<Rightarrow>
                if (case cache rsid of
                      None \<Rightarrow> True
                    | Some a \<Rightarrow> (case a ''clinical_significance'' of None \<Rightarrow> True | Some s \<Rightarrow> s = []))
                then cache(rsid \<mapsto>
                       [''clinical_significance'' \<mapsto> column_value significance_idx fields,
                        ''phenotype_list'' \<mapsto> column_value phenotype_idx fields,
                        ''rcv_accession'' \<mapsto> column_value rcv_idx fields])
                else cache))"

text \<open>A JSON document on disk: missing, present but not loadable, or the dictionary it
  holds.\<close>

datatype 'a json_file = NoFile | Unreadable | Document 'a

record clinvar_disk =
  cache_file :: "clinvar_cache json_file"
  cache_file_tmp :: "clinvar_cache json_file"

text \<open>\<open>_parse_and_cache\<close> on the lines of the downloaded table. The result is the exception
  raised, if any, and the disk as the function leaves it.\<close>

definition parse_and_cache :: "string list \<Rightarrow> clinvar_disk \<Rightarrow> py_error option \<times> clinvar_disk" where
  "parse_and_cache gz_lines disk =
     (let header_line = str_strip (case gz_lines of [] \<Rightarrow> [] | l # _ \<Rightarrow> l);
          columns = str_split (CHR 0x09) header_line;
          rsid_idx = find_column_index columns rsid_patterns;
          significance_idx = find_column_index columns significance_patterns;
          phenotype_idx = find_column_index columns phenotype_patterns;
          rcv_idx = find_column_index columns rcv_patterns
      in case rsid_idx of
           None \<Rightarrow> (Some ValueError, disk)
         | Some ri \<Rightarrow>
             (let cache = foldl (\<lambda>cache line.
                                   clinvar_row ri significance_idx phenotype_idx rcv_idx line cache)
                                Map.empty (drop 1 gz_lines);
                  written = disk\<lparr>cache_file_tmp := Document cache\<rparr>
              in (None, written\<lparr>cache_file := cache_file_tmp written, cache_file_tmp := NoFile\<rparr>)))"

text \<open>\<open>ensure_data_downloaded\<close>; \<open>download\<close> is what the download delivers: the lines of
  the table, or \<open>None\<close> when fetching or opening it raises.\<close>

definition ensure_data_downloaded ::
  "bool \<Rightarrow> string list option \<Rightarrow> clinvar_disk \<Rightarrow> bool \<times> clinvar_disk" where
  "ensure_data_downloaded force_download download disk =
     (if \<not> force_download \<and> cache_file disk \<noteq> NoFile then (True, disk)
      else (case download of
              None \<Rightarrow> (False, disk)
            | Some gz_lines \<Rightarrow>
                (case parse_and_cache gz_lines disk of
                   (Some e, disk') \<Rightarrow> (False, disk')
                 | (None, disk') \<Rightarrow> (True, disk'))))"

record annotator =
  annotation_cache :: clinvar_cache
  loaded :: bool

definition load_cache :: "clinvar_disk \<Rightarrow> annotator \<Rightarrow> annotator" where
  "load_cache disk a =
     (if loaded a then a
      else (case cache_file disk of
              Document d \<Rightarrow> a\<lparr>annotation_cache := d, loaded := True\<rparr>
            | _ \<Rightarrow> a\<lparr>annotation_cache := Map.empty, loaded := True\<rparr>))"

text \<open>\<open>d.get(k, default)\<close>.\<close>

definition dict_get :: "('k \<rightharpoonup> 'v) \<Rightarrow> 'k \<Rightarrow> 'v \<Rightarrow> 'v" where
  "dict_get d k dflt = (case d k of Some v \<Rightarrow> v | None \<Rightarrow> dflt)"

definition annotate :: "clinvar_disk \<Rightarrow> annotator \<Rightarrow> string \<Rightarrow> annotation \<times> annotator" where
  "annotate disk a rsid =
     (let a' = (if \<not> loaded a then load_cache disk a else a);
          rsid_upper = str_strip (str_upper rsid);
          result = dict_get (annotation_cache a') rsid_upper Map.empty
      in ([''clinical_significance'' \<mapsto> dict_get result ''clinical_significance'' [],
           ''phenotype_list'' \<mapsto> dict_get result ''phenotype_list'' [],
           ''rcv_accession'' \<mapsto> dict_get result ''rcv_accession'' []], a'))"

section \<open>Knowledge expansion (layer 3)\<close>

text \<open>A cached record is the dictionary with the keys \<open>extract\<close> (here \<open>extract_text\<close>),
  \<open>categories\<close>, \<open>url\<close> and \<open>source\<close>; it is never empty, so it is true wherever the
  source tests it.\<close>

record knowledge =
  extract_text :: string
  categories :: "string list"
  url :: string
  source :: string

text \<open>What one \<open>session.get\<close> comes to: a status with the page text, a timeout, or any
  other exception of the request.\<close>

datatype response = Http nat string | Timeout | RequestError

text \<open>
  The expander's settings and surroundings: \<open>max_retries\<close>, whether the HTTP session is
  open, the remote site as the answer to the n-th request issued, and the page parser
  (paragraph and category labels, or \<open>None\<close> when parsing raises).

  The state: one cache file per upper-cased identifier (absent also stands for a file that
  does not load), the checkpoint file, whether the disk accepts writes, and the log of the
  URLs requested so far. Delays are not modelled. The tasks of a batch run here one after
  the other, in list order.
\<close>

record expander_env =
  max_retries :: nat
  session_open :: bool
  remote :: "nat \<Rightarrow> response"
  parse_page :: "string \<Rightarrow> (string \<times> string list) option"

record expander_state =
  cache_dir :: "string \<rightharpoonup> knowledge"
  checkpoint_file :: "string set option"
  writable :: bool
  requests :: "string list"

definition SNPEDIA_BASE_URL :: string where
  "SNPEDIA_BASE_URL = ''https://www.snpedia.com/index.php/''"

definition load_checkpoint :: "expander_state \<Rightarrow> string set" where
  "load_checkpoint s = (case checkpoint_file s of None \<Rightarrow> {} | Some processed \<Rightarrow> processed)"

definition save_checkpoint :: "string set \<Rightarrow> expander_state \<Rightarrow> expander_state" where
  "save_checkpoint processed s =
     (if writable s then s\<lparr>checkpoint_file := Some processed\<rparr> else s)"

definition get_cached :: "expander_state \<Rightarrow> string \<Rightarrow> knowledge option" where
  "get_cached s rsid = cache_dir s (str_upper rsid)"

definition save_cache :: "string \<Rightarrow> knowledge \<Rightarrow> expander_state \<Rightarrow> expander_state" where
  "save_cache rsid data s =
     (if writable s then s\<lparr>cache_dir := (cache_dir s)(str_upper rsid \<mapsto> data)\<rparr> else s)"

definition parse_html :: "expander_env \<Rightarrow> string \<Rightarrow> string \<Rightarrow> knowledge" where
  "parse_html env html page_url =
     (case parse_page env html of
        Some (text, cats) \<Rightarrow>
          \<lparr>extract_text = text, categories = cats, url = page_url, source = ''live''\<rparr>
      | None \<Rightarrow>
          \<lparr>extract_text = [], categories = [], url = page_url, source = ''parse_failed''\<rparr>)"

text \<open>The loop \<open>for attempt in range(self.max_retries)\<close> of \<open>_fetch_from_html\<close>, with the
  number of attempts still to make.\<close>

fun fetch_attempts ::
  "expander_env \<Rightarrow> string \<Rightarrow> nat \<Rightarrow> expander_state \<Rightarrow> knowledge option \<times> expander_state" where
  "fetch_attempts env page_url 0 s = (None, s)"
| "fetch_attempts env page_url (Suc k) s =
     (let answer = remote env (length (requests s));
          s' = s\<lparr>requests := requests s @ [page_url]\<rparr>
      in case answer of
           Http status html \<Rightarrow>
             if status = 200 then (Some (parse_html env html page_url), s')
             else if status = 404 then (None, s')
             else fetch_attempts env page_url k s'
         | Timeout \<Rightarrow> fetch_attempts env page_url k s'
         | RequestError \<Rightarrow> fetch_attempts env page_url k s')"

definition fetch_from_html ::
  "expander_env \<Rightarrow> string \<Rightarrow> expander_state \<Rightarrow> knowledge option \<times> expander_state" where
  "fetch_from_html env rsid s =
     (if \<not> session_open env then (None, s)
      else fetch_attempts env (SNPEDIA_BASE_URL @ rsid) (max_retries env) s)"

text \<open>\<open>_fetch_from_api\<close> is a placeholder that returns \<open>None\<close> on both of its paths.\<close>

definition fetch_from_api :: "expander_env \<Rightarrow> string \<Rightarrow> knowledge option" where
  "fetch_from_api env rsid = (if \<not> session_open env then None else None)"

definition expand_rsid ::
  "expander_env \<Rightarrow> string \<Rightarrow> expander_state \<Rightarrow> knowledge \<times> expander_state" where
  "expand_rsid env rsid s =
     (case get_cached s rsid of
        Some cached \<Rightarrow> (cached, s)
      | None \<Rightarrow>
          (case (case fetch_from_api env rsid of
                   Some r \<Rightarrow> if source r = ''live'' then Some r else None
                 | None \<Rightarrow> None) of
             Some result \<Rightarrow> (result, save_cache rsid result s)
           | None \<Rightarrow>
               (case fetch_from_html env rsid s of
                  (Some result, s') \<Rightarrow> (result, save_cache rsid result s')
                | (None, s') \<Rightarrow>
                    (let empty_result =
                           \<lparr>extract_text = [], categories = [],
                            url = SNPEDIA_BASE_URL @ rsid, source = ''failed''\<rparr>
                     in (empty_result, save_cache rsid empty_result s')))))"

text \<open>The working state of \<open>expand_batch\<close>: the result dictionary, the processed set and
  the expander's state. \<open>process_one\<close> is the task of one identifier.\<close>

type_synonym batch_state = "(string \<rightharpoonup> knowledge) \<times> string set \<times> expander_state"

definition process_one :: "expander_env \<Rightarrow> batch_state \<Rightarrow> string \<Rightarrow> batch_state" where
  "process_one env st rsid =
     (case st of (results, processed, s) \<Rightarrow>
        (case expand_rsid env rsid s of
           (result, s') \<Rightarrow> (results(rsid \<mapsto> result), insert rsid processed, s')))"

text \<open>The loop \<open>for i in range(0, len(to_process), batch_size)\<close>, from index \<open>i\<close> on.\<close>

function process_batches ::
  "expander_env \<Rightarrow> nat \<Rightarrow> string list \<Rightarrow> nat \<Rightarrow> batch_state \<Rightarrow> batch_state" where
  "process_batches env batch_size to_process i st =
     (if batch_size = 0 \<or> length to_process \<le> i then st
      else (case foldl (process_one env) st (take batch_size (drop i to_process)) of
              (results, processed, s) \<Rightarrow>
                process_batches env batch_size to_process (i + batch_size)
                  (results, processed, save_checkpoint processed s)))"
  by pat_completeness auto
termination
  by (relation "measure (\<lambda>(env, batch_size, to_process, i, st). length to_process - i)") auto

definition expand_batch ::
  "expander_env \<Rightarrow> string list \<Rightarrow> expander_state \<Rightarrow> (string \<rightharpoonup> knowledge) \<times> expander_state" where
  "expand_batch env rsids s =
     (let processed = load_checkpoint s;
          to_process = filter (\<lambda>rsid. rsid \<notin> processed) rsids
      in if to_process = []
         then (foldl (\<lambda>results rsid.
                        case get_cached s rsid of
                          Some cached \<Rightarrow> results(rsid \<mapsto> cached)
                        | None \<Rightarrow> results) Map.empty rsids, s)
         else (case process_batches env 100 to_process 0 (Map.empty, processed, s) of
                 (results, processed', s') \<Rightarrow> (results, save_checkpoint processed' s')))"

section \<open>Atomic persistence (layer 8)\<close>

text \<open>JSON-serializable payloads. A dictionary is its list of items in insertion order,
  with string keys; numbers are integers.\<close>

datatype json =
    JNull
  | JBool bool
  | JInt int
  | JStr string
  | JList "json list"
  | JObj "(string \<times> json) list"

function nat_digits :: "nat \<Rightarrow> string" where
  "nat_digits n =
     (if n < 10 then [''0123456789'' ! n]
      else nat_digits (n div 10) @ [''0123456789'' ! (n mod 10)])"
  by pat_completeness auto
termination
  by (relation "measure id") auto

definition int_repr :: "int \<Rightarrow> string" where
  "int_repr i = (if i < 0 then CHR ''-'' # nat_digits (nat (- i)) else nat_digits (nat i))"

text \<open>The string escapes of the encoder with \<open>ensure_ascii=False\<close>: the quote, the
  backslash and the control characters.\<close>

definition hex_digit :: "nat \<Rightarrow> char" where
  "hex_digit n = ''0123456789abcdef'' ! (n mod 16)"

definition json_escape_char :: "char \<Rightarrow> string" where
  "json_escape_char c =
     (if c = CHR 0x22 then [CHR 0x5C, CHR 0x22]
      else if c = CHR 0x5C then [CHR 0x5C, CHR 0x5C]
      else if c = CHR 0x0A then [CHR 0x5C, CHR ''n'']
      else if c = CHR 0x0D then [CHR 0x5C, CHR ''r'']
      else if c = CHR 0x09 then [CHR 0x5C, CHR ''t'']
      else if c = CHR 0x08 then [CHR 0x5C, CHR ''b'']
      else if c = CHR 0x0C then [CHR 0x5C, CHR ''f'']
      else if (of_char c :: nat) < 32
      then [CHR 0x5C, CHR ''u'', CHR ''0'', CHR ''0'',
            hex_digit (of_char c div 16), hex_digit (of_char c)]
      else [c])"

definition json_string :: "string \<Rightarrow> string" where
  "json_string s = [CHR 0x22] @ concat (map json_escape_char s) @ [CHR 0x22]"

definition newline_indent :: "nat \<Rightarrow> string" where
  "newline_indent level = CHR 0x0A # replicate (2 * level) (CHR '' '')"

text \<open>\<open>json.dump(data, f, indent=2, ensure_ascii=False)\<close> at nesting depth \<open>level\<close>: the
  items of a dictionary are written in the order the dictionary holds them.\<close>

fun json_dumps :: "nat \<Rightarrow> json \<Rightarrow> string" where
  "json_dumps level JNull = ''null''"
| "json_dumps level (JBool b) = (if b then ''true'' else ''false'')"
| "json_dumps level (JInt i) = int_repr i"
| "json_dumps level (JStr s) = json_string s"
| "json_dumps level (JList xs) =
     (if xs = [] then ''[]''
      else ''['' @ newline_indent (Suc level)
           @ str_join ('','' @ newline_indent (Suc level)) (map (json_dumps (Suc level)) xs)
           @ newline_indent level @ '']'')"
| "json_dumps level (JObj items) =
     (if items = [] then ''{}''
      else ''{'' @ newline_indent (Suc level)
           @ str_join ('','' @ newline_indent (Suc level))
               (map (\<lambda>item. json_string (fst item) @ '': '' @ json_dumps (Suc level) (snd item)) items)
           @ newline_indent level @ ''}'')"

text \<open>\<open>ensure_deterministic_output\<close>: \<open>sorted(data.items())\<close> orders the items by key (the
  keys of a dictionary are distinct), and every value is treated in turn.\<close>

function ensure_deterministic_output :: "json \<Rightarrow> json" where
  "ensure_deterministic_output (JObj items) =
     JObj (map (\<lambda>item. (fst item, ensure_deterministic_output (snd item))) (sort_key fst items))"
| "ensure_deterministic_output (JList xs) = JList (map ensure_deterministic_output xs)"
| "ensure_deterministic_output JNull = JNull"
| "ensure_deterministic_output (JBool b) = JBool b"
| "ensure_deterministic_output (JInt i) = JInt i"
| "ensure_deterministic_output (JStr s) = JStr s"
  by pat_completeness auto
termination
proof (relation "measure size")
  show "wf (measure size)" by simp
next
  fix items :: "(string \<times> json) list" and item
  assume "item \<in> set (sort_key fst items)"
  then have "item \<in> set items" by simp
  then have "size (snd item) < size (JObj items)"
    by (induction items) (auto simp: less_Suc_eq_le)
  then show "(snd item, JObj items) \<in> measure size" by simp
next
  fix xs :: "json list" and x
  assume "x \<in> set xs"
  then have "size x < size (JList xs)"
    by (induction xs) auto
  then show "(x, JList xs) \<in> measure size" by simp
qed

text \<open>
  The files \<open>save_json_atomic\<close> touches, by role: the destination, its temporary sibling
  (\<open>.tmp\<close>) and the backups by their suffix, each with its text. \<open>can_write\<close> tells
  whether opening and writing the temporary file succeeds, \<open>copy_ok\<close> whether the backup
  copy does, and \<open>stamp\<close> is the time stamp of the backup's suffix.
\<close>

record store =
  destination :: "string option"
  temporary :: "string option"
  backups :: "string \<rightharpoonup> string"

definition save_json_atomic ::
  "bool \<Rightarrow> bool \<Rightarrow> string \<Rightarrow> json \<Rightarrow> bool \<Rightarrow> store \<Rightarrow> bool \<times> store" where
  "save_json_atomic can_write copy_ok stamp data create_backup st =
     (let st1 = (case destination st of
                   Some old \<Rightarrow>
                     if create_backup \<and> copy_ok
                     then st\<lparr>backups := (backups st)(''.backup.'' @ stamp \<mapsto> old)\<rparr>
                     else st
                 | None \<Rightarrow> st)
      in if can_write
         then (let st2 = st1\<lparr>temporary := Some (json_dumps 0 data)\<rparr>
               in (True, st2\<lparr>destination := temporary st2, temporary := None\<rparr>))
         else (False, st1\<lparr>temporary := None\<rparr>))"

section \<open>Auxiliary predicates and example inputs\<close>

text \<open>An answer after which \<open>_fetch_from_html\<close> goes on to its next attempt.\<close>

definition retryable :: "response \<Rightarrow> bool" where
  "retryable r = (case r of Http status html \<Rightarrow> status \<noteq> 200 \<and> status \<noteq> 404 | _ \<Rightarrow> True)"

text \<open>The \<open>empty_result\<close> of \<open>expand_rsid\<close>.\<close>

definition failed_result :: "string \<Rightarrow> knowledge" where
  "failed_result rsid =
     \<lparr>extract_text = [], categories = [], url = SNPEDIA_BASE_URL @ rsid, source = ''failed''\<rparr>"

text \<open>Every key of the table starts with lower-case \<open>rs\<close>.\<close>

definition rs_keys :: "freq_db \<Rightarrow> bool" where
  "rs_keys db = (\<forall>k. db k \<noteq> None \<longrightarrow> prefix ''rs'' k)"

definition example_vcf :: "string list" where
  "example_vcf =
     [''##fileformat=VCFv4.1'' @ [CHR 0x0A],
      tsv [''#CHROM'', ''POS'', ''ID'', ''REF'', ''ALT'', ''QUAL'', ''FILTER'', ''INFO''] @ [CHR 0x0A],
      tsv [''1'', ''100'', ''rs123'', ''A'', ''G'', ''100'', ''PASS'', ''AF=0.05''] @ [CHR 0x0A]]"

text \<open>A remote site that answers 403 to the first request and 404 to every later one.\<close>

definition example_env :: expander_env where
  "example_env = \<lparr>max_retries = 2, session_open = True,
                   remote = (\<lambda>n. if n = 0 then Http 403 [] else Http 404 []),
                   parse_page = (\<lambda>html. None)\<rparr>"

definition fresh_state :: expander_state where
  "fresh_state = \<lparr>cache_dir = Map.empty, checkpoint_file = None, writable = True, requests = []\<rparr>"

text \<open>A checkpoint that records \<open>rs1\<close>, with no cache file for it.\<close>

definition checkpointed_state :: expander_state where
  "checkpointed_state =
     \<lparr>cache_dir = Map.empty, checkpoint_file = Some {''rs1''}, writable = True, requests = []\<rparr>"

text \<open>Inputs of the clinical ingester: the scenario of the specification, a table with
  the significance column first, the same with it second, a table without identifier
  column, and a disk that holds an earlier cache document.\<close>

definition empty_disk :: clinvar_disk where
  "empty_disk = \<lparr>cache_file = NoFile, cache_file_tmp = NoFile\<rparr>"

definition unloaded :: annotator where
  "unloaded = \<lparr>annotation_cache = Map.empty, loaded = False\<rparr>"

definition clinvar_example :: "string list" where
  "clinvar_example =
     [tsv [''RS# (dbSNP)'', ''ClinicalSignificance'', ''PhenotypeList'', ''RCVaccession''] @ [CHR 0x0A],
      tsv [''rs123 (dbSNP)'', ''Pathogenic'', ''SomeDisease'', ''RCV000001''] @ [CHR 0x0A]]"

definition significance_first_dump :: "string list" where
  "significance_first_dump =
     [tsv [''ClinicalSignificance'', ''RS# (dbSNP)''] @ [CHR 0x0A],
      tsv [''Pathogenic'', ''rs123''] @ [CHR 0x0A]]"

definition significance_second_dump :: "string list" where
  "significance_second_dump =
     [tsv [''RS# (dbSNP)'', ''ClinicalSignificance''] @ [CHR 0x0A],
      tsv [''rs123'', ''Pathogenic''] @ [CHR 0x0A]]"

definition no_rsid_dump :: "string list" where
  "no_rsid_dump =
     [tsv [''GeneID'', ''ClinicalSignificance''] @ [CHR 0x0A],
      tsv [''672'', ''Pathogenic''] @ [CHR 0x0A]]"

definition old_disk :: clinvar_disk where
  "old_disk = \<lparr>cache_file = Document [''RS1'' \<mapsto> [''clinical_significance'' \<mapsto> ''Benign'']],
                cache_file_tmp = NoFile\<rparr>"

text \<open>An annotation with exactly the three clinical fields.\<close>

definition three_fields :: "annotation \<Rightarrow> bool" where
  "three_fields a = (dom a = {''clinical_significance'', ''phenotype_list'', ''rcv_accession''})"

definition unsorted_payload :: json where
  "unsorted_payload = JObj [(''b'', JInt 1), (''a'', JInt 2)]"

definition empty_store :: store where
  "empty_store = \<lparr>destination = None, temporary = None, backups = Map.empty\<rparr>"

text \<open>The text of one item of a dictionary, as \<open>json_dumps\<close> writes it.\<close>

definition json_item :: "nat \<Rightarrow> string \<times> json \<Rightarrow> string" where
  "json_item level item = json_string (fst item) @ '': '' @ json_dumps level (snd item)"

section \<open>Properties of the frequency extraction\<close>

lemmas char_defs = is_digit_def is_digit_or_dot_def is_space_def digit_val_def
  upper_char_def lower_char_def lower_letters_def upper_letters_def
  str_upper_def str_lower_def str_strip_def str_isdigit_def int_of_digits_def



lemma takeWhile_run:
  "list_all cls d \<Longrightarrow> rest = [] \<or> \<not> cls (hd rest) \<Longrightarrow> takeWhile cls (d @ rest) = d"
  by (induction d) (auto simp: takeWhile_eq_Nil_iff neq_Nil_conv)

lemma prefix_shorten:
  assumes "prefix key (a @ b)" "length key \<le> length (a @ b')" "prefix b' b"
  shows "prefix key (a @ b')"
proof -
  from assms(3) have "prefix (a @ b') (a @ b)" by simp
  with assms(1) have "prefix key (a @ b') \<or> prefix (a @ b') key"
    using prefix_same_cases by blast
  then show ?thesis
  proof
    assume "prefix (a @ b') key"
    then have "length (a @ b') \<le> length key" by (rule prefix_length_le)
    with assms(2) have "length (a @ b') = length key" by simp
    with \<open>prefix (a @ b') key\<close> have "a @ b' = key"
      by (metis prefix_order.eq_iff prefix_length_prefix order_refl prefix_order.refl)
    then show ?thesis by simp
  qed
qed

lemma re_search_group_first:
  assumes "key \<noteq> []" "d \<noteq> []" "list_all cls d" "rest = [] \<or> \<not> cls (hd rest)"
  shows "\<not> str_contains key (p @ butlast key) \<Longrightarrow>
         re_search_group key cls (p @ key @ d @ rest) = Some d"
proof (induction p)
  case Nil
  from assms(1) obtain k ks where key: "key = k # ks" by (cases key) auto
  have "takeWhile cls (d @ rest) = d" using assms(3,4) by (rule takeWhile_run)
  then show ?case using assms(2) by (simp add: key)
next
  case (Cons c cs)
  have np: "\<not> prefix key (c # cs @ key @ d @ rest)"
  proof
    assume "prefix key (c # cs @ key @ d @ rest)"
    then have "prefix key ((c # cs) @ (key @ d @ rest))" by simp
    moreover have "length key \<le> length ((c # cs) @ butlast key)" by simp
    moreover have "prefix (butlast key) (key @ d @ rest)"
      by (metis append_butlast_last_id assms(1) prefixI append.assoc)
    ultimately have "prefix key ((c # cs) @ butlast key)" by (rule prefix_shorten)
    with Cons.prems show False by simp
  qed
  from Cons.prems have "\<not> str_contains key (cs @ butlast key)" by simp
  then have "re_search_group key cls (cs @ key @ d @ rest) = Some d" by (rule Cons.IH)
  with np show ?case by simp
qed

lemma no_AF_straddle:
  "\<not> str_contains ''AF='' p \<Longrightarrow> \<not> str_contains ''AF='' (p @ ''AF'')"
proof (induction p)
  case Nil
  then show ?case by simp
next
  case (Cons c cs)
  then have ih: "\<not> str_contains ''AF='' (cs @ ''AF'')" by simp
  from Cons.prems have np: "\<not> prefix ''AF='' (c # cs)" by simp
  have "\<not> prefix ''AF='' (c # cs @ ''AF'')"
  proof (cases cs)
    case Nil
    then show ?thesis by simp
  next
    case (Cons x xs)
    note c1 = this
    show ?thesis
    proof (cases xs)
      case Nil
      then show ?thesis using c1 by simp
    next
      case (Cons y ys)
      then show ?thesis using c1 np by simp
    qed
  qed
  with ih show ?case by simp
qed

lemma float_of_decimal_SomeD:
  "float_of_decimal d = Some v \<Longrightarrow> d \<noteq> [] \<and> list_all is_digit_or_dot d"
proof -
  assume a: "float_of_decimal d = Some v"
  have split: "d = takeWhile is_digit d @ dropWhile is_digit d" by simp
  have ip: "list_all is_digit_or_dot (takeWhile is_digit d)"
    by (induction d) (auto simp: is_digit_or_dot_def)
  show ?thesis
  proof (cases "dropWhile is_digit d")
    case Nil
    with a have "takeWhile is_digit d \<noteq> []"
      by (auto simp: float_of_decimal_def Let_def split: if_splits)
    with Nil split ip show ?thesis by (metis append_Nil2)
  next
    case (Cons c fp)
    with a have c: "c = CHR ''.''" and fp: "list_all is_digit fp"
      by (auto simp: float_of_decimal_def Let_def split: if_splits)
    from fp have "list_all is_digit_or_dot fp"
      by (induction fp) (auto simp: is_digit_or_dot_def)
    with c have "list_all is_digit_or_dot (c # fp)" by (simp add: is_digit_or_dot_def)
    with ip have "list_all is_digit_or_dot (takeWhile is_digit d @ c # fp)" by simp
    with Cons split have "list_all is_digit_or_dot d" by metis
    moreover from Cons have "d \<noteq> []" by auto
    ultimately show ?thesis by simp
  qed
qed

lemma extract_af_first:
  assumes "\<not> str_contains ''AF='' p" "float_of_decimal d = Some v"
    "rest = [] \<or> \<not> is_digit_or_dot (hd rest)"
  shows "extract_af_from_info (p @ ''AF='' @ d @ rest) = Some v"
proof -
  from assms(2) have d: "d \<noteq> []" "list_all is_digit_or_dot d"
    using float_of_decimal_SomeD by blast+
  from assms(1) have "\<not> str_contains ''AF='' (p @ butlast ''AF='')"
    using no_AF_straddle by simp
  then have "re_search_group ''AF='' is_digit_or_dot (p @ ''AF='' @ d @ rest) = Some d"
    using re_search_group_first [of "''AF=''" d is_digit_or_dot rest p] d assms(3) by simp
  with assms(2) show ?thesis by (simp add: extract_af_from_info_def)
qed






text \<open>
  Claim C10. The direct extractor reads the number after the first \<open>AF=\<close> in the INFO
  string, wherever it stands: when the text before it holds no \<open>AF=\<close> and the decimal d
  follows it, the direct frequency is the value of d, and the line gets that value. So
  \<open>AFR_AF=0.1\<close>, with no \<open>AF\<close> key of its own, gives 1/10, and
  \<open>AC=3;AN=10;AFR_AF=0.1\<close> gives 1/10 although the derived value would be 3/10.
\<close>

theorem extract_af_reads_first_AF_substring:
  "(\<not> str_contains ''AF='' p \<and> float_of_decimal d = Some af
      \<and> (rest = [] \<or> \<not> is_digit_or_dot (hd rest))
      \<longrightarrow> extract_af_from_info (p @ ''AF='' @ d @ rest) = Some af
          \<and> info_frequency (p @ ''AF='' @ d @ rest) = Some af)
   \<and> extract_af_from_info ''AFR_AF=0.1'' = Some (1 / 10)
   \<and> derive_af_from_info ''AC=3;AN=10;AFR_AF=0.1'' = Some (3 / 10)
   \<and> info_frequency ''AC=3;AN=10;AFR_AF=0.1'' = Some (1 / 10)
   \<and> map_option (\<lambda>r. global_af (snd r))
        (vcf_record (tsv [''1'', ''100'', ''rs123'', ''A'', ''G'', ''100'', ''PASS'',
                          ''AC=3;AN=10;AFR_AF=0.1''])) = Some (1 / 10)"
proof -
  have g: "extract_af_from_info (p @ ''AF='' @ d @ rest) = Some af
          \<and> info_frequency (p @ ''AF='' @ d @ rest) = Some af"
    if "\<not> str_contains ''AF='' p \<and> float_of_decimal d = Some af
      \<and> (rest = [] \<or> \<not> is_digit_or_dot (hd rest))"
  proof -
    from that have "extract_af_from_info (p @ ''AF='' @ d @ rest) = Some af"
      using extract_af_first by blast
    then show ?thesis by (simp add: info_frequency_def)
  qed
  have e1: "extract_af_from_info ''AFR_AF=0.1'' = Some (1 / 10)"
    by (simp add: extract_af_from_info_def float_of_decimal_def char_defs)
  have e2: "derive_af_from_info ''AC=3;AN=10;AFR_AF=0.1'' = Some (3 / 10)"
    by (simp add: derive_af_from_info_def char_defs)
  have e3: "info_frequency ''AC=3;AN=10;AFR_AF=0.1'' = Some (1 / 10)"
    by (simp add: info_frequency_def extract_af_from_info_def float_of_decimal_def char_defs)
  have e4: "map_option (\<lambda>r. global_af (snd r))
        (vcf_record (tsv [''1'', ''100'', ''rs123'', ''A'', ''G'', ''100'', ''PASS'',
                          ''AC=3;AN=10;AFR_AF=0.1''])) = Some (1 / 10)"
    by (simp add: vcf_record_def tsv_def str_join_def info_frequency_def extract_af_from_info_def
        float_of_decimal_def char_defs)
  show ?thesis using g e1 e2 e3 e4 by blast
qed

theorem extract_af_reads_first_AF_substring_witness:
  "\<not> str_contains ''AF='' ''AC=3;AN=10;EAS_'' \<and> float_of_decimal ''0.1'' = Some (1 / 10)
   \<and> \<not> is_digit_or_dot (hd '';DP=5'')
   \<and> extract_af_from_info (''AC=3;AN=10;EAS_'' @ ''AF='' @ ''0.1'' @ '';DP=5'') = Some (1 / 10)
   \<and> info_frequency (''AC=3;AN=10;EAS_'' @ ''AF='' @ ''0.1'' @ '';DP=5'') = Some (1 / 10)"
proof -
  have h1: "\<not> str_contains ''AF='' ''AC=3;AN=10;EAS_''" by simp
  have h2: "float_of_decimal ''0.1'' = Some (1 / 10)"
    by (simp add: float_of_decimal_def char_defs)
  have h3: "\<not> is_digit_or_dot (hd '';DP=5'')" by (simp add: char_defs)
  from extract_af_reads_first_AF_substring [of "''AC=3;AN=10;EAS_''" "''0.1''" "1 / 10" "'';DP=5''"]
    h1 h2 h3
  have "extract_af_from_info (''AC=3;AN=10;EAS_'' @ ''AF='' @ ''0.1'' @ '';DP=5'') = Some (1 / 10)
   \<and> info_frequency (''AC=3;AN=10;EAS_'' @ ''AF='' @ ''0.1'' @ '';DP=5'') = Some (1 / 10)"
    by blast
  with h1 h2 h3 show ?thesis by blast
qed

section \<open>Properties of the frequency database\<close>

lemmas vcf_eval = parse_vcf_streaming_def vcf_record_def info_frequency_def
  extract_af_from_info_def derive_af_from_info_def float_of_decimal_def char_defs
  insert_batch_def get_frequency_def tsv_def str_join_def

lemma upper_char_not_r: "upper_char c \<noteq> CHR ''r''"
  by (auto simp: upper_char_def lower_letters_def upper_letters_def split: option.splits if_splits)

lemma str_upper_no_rs: "\<not> prefix ''rs'' (str_upper s)"
proof (cases s)
  case Nil
  then show ?thesis by (simp add: str_upper_def)
next
  case (Cons c cs)
  have "upper_char c \<noteq> CHR ''r''" by (rule upper_char_not_r)
  then show ?thesis using Cons by (auto simp: str_upper_def)
qed

lemma vcf_record_rs: "vcf_record line = Some (k, r) \<Longrightarrow> prefix ''rs'' k"
  by (auto simp: vcf_record_def Let_def split: if_splits option.splits)

lemma insert_batch_rs:
  "rs_keys db \<Longrightarrow> \<forall>(k, r) \<in> set batch. prefix ''rs'' k \<Longrightarrow> rs_keys (insert_batch db batch)"
  unfolding insert_batch_def
proof (induction batch arbitrary: db)
  case Nil
  then show ?case by simp
next
  case (Cons x batch)
  obtain k r where x: "x = (k, r)" by (cases x)
  from Cons.prems x have "rs_keys (db(k \<mapsto> r))" by (auto simp: rs_keys_def)
  moreover from Cons.prems have "\<forall>(k, r) \<in> set batch. prefix ''rs'' k" by simp
  ultimately have "rs_keys (foldl (\<lambda>d (k, r). d(k \<mapsto> r)) (db(k \<mapsto> r)) batch)"
    by (rule Cons.IH)
  then show ?case by (simp only: x foldl_Cons prod.case)
qed

lemma vcf_lines_rs:
  "rs_keys db \<Longrightarrow> \<forall>(k, r) \<in> set batch. prefix ''rs'' k \<Longrightarrow> rs_keys (vcf_lines ls batch db)"
proof (induction ls arbitrary: batch db)
  case Nil
  then show ?case by (simp add: insert_batch_rs)
next
  case (Cons line ls)
  show ?case
  proof (cases "str_strip line = [] \<or> vcf_record line = None")
    case True
    then show ?thesis using Cons by auto
  next
    case False
    then obtain k r where kr: "vcf_record line = Some (k, r)" by auto
    then have pk: "prefix ''rs'' k" by (rule vcf_record_rs)
    from Cons.prems(2) pk have b': "\<forall>(k, r) \<in> set (batch @ [(k, r)]). prefix ''rs'' k" by auto
    show ?thesis
    proof (cases "length (batch @ [(k, r)]) \<ge> 1000")
      case True
      have "rs_keys (insert_batch db (batch @ [(k, r)]))"
        using Cons.prems(1) b' by (rule insert_batch_rs)
      then have "rs_keys (vcf_lines ls [] (insert_batch db (batch @ [(k, r)])))"
        by (rule Cons.IH) simp
      with True False kr show ?thesis by (simp add: Let_def)
    next
      case F2: False
      have "rs_keys (vcf_lines ls (batch @ [(k, r)]) db)"
        using Cons.prems(1) b' by (rule Cons.IH)
      with F2 False kr show ?thesis by (simp add: Let_def)
    qed
  qed
qed

lemma get_frequency_never_finds_indexed:
  "get_frequency (parse_vcf_streaming file Map.empty) s = None"
proof -
  have "rs_keys (parse_vcf_streaming file Map.empty)"
    unfolding parse_vcf_streaming_def by (rule vcf_lines_rs) (simp_all add: rs_keys_def)
  then show ?thesis using str_upper_no_rs [of s]
    by (auto simp: get_frequency_def rs_keys_def)
qed

text \<open>
  Claim C3 (fails on the code). The line \<open>rs123 ... AF=0.05\<close> is indexed under the key
  \<open>rs123\<close> as it stands in the file, and \<open>get_frequency\<close> looks for the upper-cased
  \<open>RS123\<close>: the lookup finds nothing, for the spelling of the file and for every other.
\<close>

theorem get_frequency_misses_indexed_identifier:
  "parse_vcf_streaming example_vcf Map.empty ''rs123''
     = Some \<lparr>ref = ''A'', alt = ''G'', global_af = 5 / 100\<rparr>
   \<and> get_frequency (parse_vcf_streaming example_vcf Map.empty) ''rs123'' = None
   \<and> get_frequency (parse_vcf_streaming example_vcf Map.empty) ''RS123'' = None
   \<and> get_frequency (parse_vcf_streaming example_vcf Map.empty) ''Rs123'' = None"
  by (simp add: example_vcf_def vcf_eval)

lemma select_in_append: "select_in db xs ++ select_in db ys = select_in db (xs @ ys)"
  by (rule ext) (auto simp: select_in_def map_add_def split: option.splits)

declare query_chunks.simps [simp del]

lemma query_chunks_whole:
  "0 < chunk_size \<Longrightarrow>
   query_chunks db chunk_size rsids i results = results ++ select_in db (map str_upper (drop i rsids))"
proof (induction db chunk_size rsids i results rule: query_chunks.induct)
  case (1 db chunk_size rsids i results)
  show ?case
  proof (cases "length rsids \<le> i")
    case True
    then show ?thesis using "1.prems" by (simp add: query_chunks.simps [of db chunk_size rsids i] select_in_def)
  next
    case False
    have "query_chunks db chunk_size rsids i results =
          query_chunks db chunk_size rsids (i + chunk_size)
             (results ++ select_in db (map str_upper (take chunk_size (drop i rsids))))"
      using False "1.prems" by (simp add: query_chunks.simps [of db chunk_size rsids i])
    also have "\<dots> = (results ++ select_in db (map str_upper (take chunk_size (drop i rsids))))
                 ++ select_in db (map str_upper (drop (i + chunk_size) rsids))"
      using False "1.prems" by (intro "1.IH") auto
    also have "\<dots> = results ++ (select_in db (map str_upper (take chunk_size (drop i rsids)))
                 ++ select_in db (map str_upper (drop (i + chunk_size) rsids)))"
      by (rule map_add_assoc [symmetric])
    also have "\<dots> = results ++ select_in db (map str_upper (take chunk_size (drop i rsids))
                 @ map str_upper (drop (i + chunk_size) rsids))"
      by (simp only: select_in_append)
    also have "map str_upper (take chunk_size (drop i rsids))
                 @ map str_upper (drop (i + chunk_size) rsids) = map str_upper (drop i rsids)"
    proof -
      have "drop (i + chunk_size) rsids = drop chunk_size (drop i rsids)"
        by (simp add: add.commute)
      then show ?thesis by (simp only: map_append [symmetric] append_take_drop_id)
    qed
    finally show ?thesis .
  qed
qed

text \<open>The chunked query gives what one query over all the identifiers gives, whatever
  the chunk size.\<close>

lemma query_chunks_any_size:
  "0 < m \<Longrightarrow> 0 < n \<Longrightarrow>
   query_chunks db m rsids 0 Map.empty = query_chunks db n rsids 0 Map.empty"
  by (simp add: query_chunks_whole)

text \<open>When every requested identifier is spelled in upper case, each of them has an
  entry.\<close>

lemma fill_missing_keeps: "results k \<noteq> None \<Longrightarrow> fill_missing rsids results k \<noteq> None"
  by (induction rsids arbitrary: results) auto

lemma fill_missing_upper:
  "rsid \<in> set rsids \<Longrightarrow> str_upper rsid = rsid \<Longrightarrow> fill_missing rsids results rsid \<noteq> None"
proof (induction rsids arbitrary: results)
  case Nil
  then show ?case by simp
next
  case (Cons x xs)
  show ?case
  proof (cases "rsid = x")
    case True
    let ?r = "if results (str_upper x) = None then results(x \<mapsto> None) else results"
    have "?r x \<noteq> None" using True Cons.prems(2) by auto
    then have "fill_missing xs ?r x \<noteq> None" by (rule fill_missing_keeps)
    then show ?thesis using True by simp
  next
    case False
    with Cons.prems have "rsid \<in> set xs" by simp
    then show ?thesis using Cons.IH Cons.prems(2) by simp
  qed
qed

lemma get_frequencies_batch_upper_total:
  "0 < chunk_size \<Longrightarrow> rsid \<in> set rsids \<Longrightarrow> str_upper rsid = rsid \<Longrightarrow>
   \<exists>r. get_frequencies_batch db chunk_size rsids = Inr r \<and> r rsid \<noteq> None"
proof -
  assume a: "0 < chunk_size" "rsid \<in> set rsids" "str_upper rsid = rsid"
  have "fill_missing rsids (query_chunks db chunk_size rsids 0 Map.empty) rsid \<noteq> None"
    using a(2,3) by (rule fill_missing_upper)
  moreover have "rsids \<noteq> []" using a(2) by auto
  ultimately show ?thesis using a(1) by (simp add: get_frequencies_batch_def)
qed


section \<open>Properties of the knowledge expander\<close>

lemma fetch_attempts_not_found:
  "\<forall>i<j. retryable (remote env (length (requests s) + i)) \<Longrightarrow>
   remote env (length (requests s) + j) = Http 404 html \<Longrightarrow> j < k \<Longrightarrow>
   fetch_attempts env u k s = (None, s\<lparr>requests := requests s @ replicate (Suc j) u\<rparr>)"
proof (induction j arbitrary: k s)
  case 0
  then obtain k' where k: "k = Suc k'" by (cases k) auto
  from 0 show ?case by (simp add: k)
next
  case (Suc j)
  then obtain k' where k: "k = Suc k'" by (cases k) auto
  let ?s' = "s\<lparr>requests := requests s @ [u]\<rparr>"
  have r0: "retryable (remote env (length (requests s)))" using Suc.prems(1) by force
  have step: "fetch_attempts env u k s = fetch_attempts env u k' ?s'"
    using r0 by (auto simp: k retryable_def Let_def split: response.splits)
  have "\<forall>i<j. retryable (remote env (length (requests ?s') + i))"
    using Suc.prems(1) by (auto simp: less_Suc_eq_0_disj)
  moreover have "remote env (length (requests ?s') + j) = Http 404 html"
    using Suc.prems(2) by simp
  moreover have "j < k'" using Suc.prems(3) k by simp
  ultimately have "fetch_attempts env u k' ?s' = (None, ?s'\<lparr>requests := requests ?s' @ replicate (Suc j) u\<rparr>)"
    by (rule Suc.IH)
  with step show ?case by (simp add: replicate_app_Cons_same)
qed

text \<open>
  Claim C4. Let the session be open, the disk writable and the identifier not cached, and
  let the fetch end in a 404 (after j answers that make it try again, j below
  \<open>max_retries\<close>). Then \<open>expand_rsid\<close> returns the empty record with source \<open>failed\<close>, that
  record is in the cache, j + 1 requests were issued, and a second \<open>expand_rsid\<close> for the
  identifier, whatever the remote site would answer, returns the cached record and leaves
  the state, the request log included, as it is.
\<close>

theorem not_found_is_cached_and_not_retried:
  assumes "session_open env" and "writable s" and "get_cached s rsid = None"
    and "j < max_retries env"
    and "\<forall>i<j. retryable (remote env (length (requests s) + i))"
    and "remote env (length (requests s) + j) = Http 404 html"
  shows "case expand_rsid env rsid s of (first, s1) \<Rightarrow>
           first = failed_result rsid
           \<and> get_cached s1 rsid = Some (failed_result rsid)
           \<and> length (requests s1) = length (requests s) + Suc j
           \<and> expand_rsid env' rsid s1 = (failed_result rsid, s1)"
proof -
  let ?s' = "s\<lparr>requests := requests s @ replicate (Suc j) (SNPEDIA_BASE_URL @ rsid)\<rparr>"
  have f: "fetch_from_html env rsid s = (None, ?s')"
    using assms(1) fetch_attempts_not_found [OF assms(5) assms(6) assms(4)]
    by (simp add: fetch_from_html_def)
  have e: "expand_rsid env rsid s = (failed_result rsid, save_cache rsid (failed_result rsid) ?s')"
    using assms(3) f by (simp add: expand_rsid_def fetch_from_api_def failed_result_def Let_def)
  have c: "get_cached (save_cache rsid (failed_result rsid) ?s') rsid = Some (failed_result rsid)"
    using assms(2) by (simp add: get_cached_def save_cache_def)
  have l: "length (requests (save_cache rsid (failed_result rsid) ?s')) = length (requests s) + Suc j"
    by (simp add: save_cache_def)
  have again: "expand_rsid env' rsid (save_cache rsid (failed_result rsid) ?s')
                 = (failed_result rsid, save_cache rsid (failed_result rsid) ?s')"
    using c by (simp add: expand_rsid_def)
  show ?thesis using c l again by (simp add: e)
qed

theorem not_found_is_cached_and_not_retried_witness:
  "session_open example_env \<and> writable fresh_state \<and> get_cached fresh_state ''rs7'' = None
   \<and> 1 < max_retries example_env
   \<and> retryable (remote example_env (length (requests fresh_state) + 0))
   \<and> remote example_env (length (requests fresh_state) + 1) = Http 404 []
   \<and> (case expand_rsid example_env ''rs7'' fresh_state of (first, s1) \<Rightarrow>
           first = failed_result ''rs7''
           \<and> get_cached s1 ''rs7'' = Some (failed_result ''rs7'')
           \<and> length (requests s1) = length (requests fresh_state) + Suc 1
           \<and> expand_rsid example_env ''rs7'' s1 = (failed_result ''rs7'', s1))"
proof -
  have h1: "session_open example_env" by (simp add: example_env_def)
  have h2: "writable fresh_state" by (simp add: fresh_state_def)
  have h3: "get_cached fresh_state ''rs7'' = None" by (simp add: fresh_state_def get_cached_def)
  have h4: "1 < max_retries example_env" by (simp add: example_env_def)
  have h5: "\<forall>i<1. retryable (remote example_env (length (requests fresh_state) + i))"
    by (simp add: example_env_def fresh_state_def retryable_def)
  have h6: "remote example_env (length (requests fresh_state) + 1) = Http 404 []"
    by (simp add: example_env_def fresh_state_def)
  have h5': "retryable (remote example_env (length (requests fresh_state) + 0))"
    using h5 by simp
  from not_found_is_cached_and_not_retried [OF h1 h2 h3 h4 h5 h6, of example_env]
  show ?thesis using h1 h2 h3 h4 h5' h6 by simp
qed




declare process_batches.simps [simp del]





text \<open>With a second identifier still to fetch, \<open>rs1\<close> is left out although it is cached.\<close>

lemma expand_batch_mixed_request:
  "fst (expand_batch example_env [''rs1'', ''rs2'']
          (checkpointed_state\<lparr>cache_dir := [''RS1'' \<mapsto> failed_result ''rs1'']\<rparr>)) ''rs1'' = None"
  by (simp add: expand_batch_def checkpointed_state_def load_checkpoint_def get_cached_def
      process_batches.simps process_one_def expand_rsid_def fetch_from_api_def fetch_from_html_def
      example_env_def save_checkpoint_def char_defs save_cache_def SNPEDIA_BASE_URL_def
      numeral_2_eq_2 Let_def)

section \<open>Properties of the clinical annotator\<close>

text \<open>
  Claim C5. For every identifier, whatever the cache document on disk and whether the
  annotator has loaded it or not, \<open>annotate\<close> returns a dictionary with exactly the keys
  \<open>clinical_significance\<close>, \<open>phenotype_list\<close> and \<open>rcv_accession\<close>, each with a string; for
  an identifier that is not in the cache all three are the empty string.
\<close>

theorem annotate_returns_three_string_fields:
  "dom (fst (annotate disk a rsid)) = {''clinical_significance'', ''phenotype_list'', ''rcv_accession''}
   \<and> (\<exists>s p r. fst (annotate disk a rsid) =
          [''clinical_significance'' \<mapsto> s, ''phenotype_list'' \<mapsto> p, ''rcv_accession'' \<mapsto> r])
   \<and> (annotation_cache (snd (annotate disk a rsid)) (str_strip (str_upper rsid)) = None \<longrightarrow>
        fst (annotate disk a rsid) =
          [''clinical_significance'' \<mapsto> [], ''phenotype_list'' \<mapsto> [], ''rcv_accession'' \<mapsto> []])"
  by (auto simp: annotate_def Let_def dict_get_def)

theorem annotate_returns_three_string_fields_witness:
  "annotation_cache (snd (annotate (snd (parse_and_cache clinvar_example empty_disk)) unloaded ''rs999''))
      (str_strip (str_upper ''rs999'')) = None
   \<and> fst (annotate (snd (parse_and_cache clinvar_example empty_disk)) unloaded ''rs999'') =
          [''clinical_significance'' \<mapsto> [], ''phenotype_list'' \<mapsto> [], ''rcv_accession'' \<mapsto> []]"
proof -
  have h: "annotation_cache (snd (annotate (snd (parse_and_cache clinvar_example empty_disk)) unloaded ''rs999''))
      (str_strip (str_upper ''rs999'')) = None"
    by code_simp
  from annotate_returns_three_string_fields
     [of "snd (parse_and_cache clinvar_example empty_disk)" unloaded "''rs999''"] h
  show ?thesis by blast
qed

text \<open>The scenario of the specification, and the shape of every ingested entry.\<close>

lemma annotate_example:
  "map (fst (annotate (snd (parse_and_cache clinvar_example empty_disk)) unloaded ''rs123''))
     [''clinical_significance'', ''phenotype_list'', ''rcv_accession'']
   = [Some ''Pathogenic'', Some ''SomeDisease'', Some ''RCV000001'']"
  by code_simp

lemma clinvar_row_three_fields:
  "\<forall>k a. cache k = Some a \<longrightarrow> three_fields a \<Longrightarrow>
   \<forall>k a. clinvar_row ri si ph rc line cache k = Some a \<longrightarrow> three_fields a"
  by (auto simp: clinvar_row_def Let_def three_fields_def split: option.splits if_splits)

lemma clinvar_rows_three_fields:
  "\<forall>k a. cache k = Some a \<longrightarrow> three_fields a \<Longrightarrow>
   \<forall>k a. foldl (\<lambda>cache line. clinvar_row ri si ph rc line cache) cache ls k = Some a \<longrightarrow> three_fields a"
proof (induction ls arbitrary: cache)
  case Nil
  then show ?case by simp
next
  case (Cons l ls)
  have "\<forall>k a. clinvar_row ri si ph rc l cache k = Some a \<longrightarrow> three_fields a"
    using Cons.prems by (rule clinvar_row_three_fields)
  then show ?case using Cons.IH by simp
qed

lemma parse_and_cache_three_fields:
  "parse_and_cache gz_lines disk = (None, disk') \<Longrightarrow>
   \<exists>cache. cache_file disk' = Document cache \<and> (\<forall>k a. cache k = Some a \<longrightarrow> three_fields a)"
proof -
  assume a: "parse_and_cache gz_lines disk = (None, disk')"
  let ?columns = "str_split (CHR 0x09) (str_strip (case gz_lines of [] \<Rightarrow> [] | l # ls \<Rightarrow> l))"
  from a obtain ri where ri: "find_column_index ?columns rsid_patterns = Some ri"
    by (cases "find_column_index ?columns rsid_patterns") (auto simp: parse_and_cache_def Let_def)
  let ?cache = "foldl (\<lambda>cache line. clinvar_row ri (find_column_index ?columns significance_patterns)
                   (find_column_index ?columns phenotype_patterns)
                   (find_column_index ?columns rcv_patterns) line cache) Map.empty (drop 1 gz_lines)"
  from a ri have "cache_file disk' = Document ?cache"
    by (auto simp: parse_and_cache_def Let_def)
  moreover have "\<forall>k a. ?cache k = Some a \<longrightarrow> three_fields a"
    by (rule clinvar_rows_three_fields) simp
  ultimately show ?thesis by blast
qed

text \<open>
  Claim C7. When the identifier column is not found in the header, \<open>_parse_and_cache\<close>
  raises \<open>ValueError\<close> and leaves the disk as it was: neither the cache document nor its
  temporary file is written. \<open>ensure_data_downloaded\<close> then reports failure, and the disk,
  with the cache document it held before, is unchanged.
\<close>

theorem missing_rsid_column_aborts_ingestion:
  "find_column_index
     (str_split (CHR 0x09) (str_strip (case gz_lines of [] \<Rightarrow> [] | l # ls \<Rightarrow> l))) rsid_patterns = None
   \<Longrightarrow> parse_and_cache gz_lines disk = (Some ValueError, disk)
       \<and> ensure_data_downloaded True (Some gz_lines) disk = (False, disk)
       \<and> snd (ensure_data_downloaded force_download (Some gz_lines) disk) = disk"
  by (simp add: parse_and_cache_def ensure_data_downloaded_def Let_def)

theorem missing_rsid_column_aborts_ingestion_witness:
  "find_column_index
     (str_split (CHR 0x09) (str_strip (case no_rsid_dump of [] \<Rightarrow> [] | l # ls \<Rightarrow> l))) rsid_patterns = None
   \<and> parse_and_cache no_rsid_dump old_disk = (Some ValueError, old_disk)
   \<and> ensure_data_downloaded True (Some no_rsid_dump) old_disk = (False, old_disk)"
proof -
  have h: "find_column_index
     (str_split (CHR 0x09) (str_strip (case no_rsid_dump of [] \<Rightarrow> [] | l # ls \<Rightarrow> l))) rsid_patterns = None"
    by code_simp
  from missing_rsid_column_aborts_ingestion [OF h, of old_disk True] h
  show ?thesis by simp
qed

text \<open>
  Claim C8 (fails on the code). In the table with the header
  \<open>ClinicalSignificance, RS# (dbSNP)\<close> the significance column is found at index 0, the row
  \<open>Pathogenic, rs123\<close> is ingested, and the annotation of \<open>rs123\<close> has the empty string
  as its significance: the index 0 counts as false in \<open>if significance_idx and ...\<close>. With
  the two columns exchanged the significance is \<open>Pathogenic\<close>.
\<close>

theorem first_column_value_is_dropped:
  "find_column_index [''ClinicalSignificance'', ''RS# (dbSNP)''] significance_patterns = Some 0
   \<and> fst (parse_and_cache significance_first_dump empty_disk) = None
   \<and> fst (annotate (snd (parse_and_cache significance_first_dump empty_disk)) unloaded ''rs123'')
        ''clinical_significance'' = Some []
   \<and> fst (annotate (snd (parse_and_cache significance_second_dump empty_disk)) unloaded ''rs123'')
        ''clinical_significance'' = Some ''Pathogenic''"
  by code_simp

text \<open>Whatever the row, a column at index 0 gives the empty string.\<close>

lemma column_value_first: "column_value (Some 0) row_fields = []"
  by (simp add: column_value_def)

section \<open>Properties of the atomic store\<close>

lemma str_join_append:
  "xs \<noteq> [] \<Longrightarrow> ys \<noteq> [] \<Longrightarrow> str_join sep (xs @ ys) = str_join sep xs @ sep @ str_join sep ys"
proof -
  have f: "foldl (\<lambda>acc x. acc @ sep @ x) (a @ b) zs = a @ foldl (\<lambda>acc x. acc @ sep @ x) b zs" for a b zs
    by (induction zs arbitrary: b) auto
  assume "xs \<noteq> []" "ys \<noteq> []"
  then obtain x xs' y ys' where xs: "xs = x # xs'" and ys: "ys = y # ys'"
    by (cases xs; cases ys) auto
  show ?thesis
    unfolding xs ys str_join_def
    using f [of "foldl (\<lambda>acc x. acc @ sep @ x) x xs'" "sep @ y" ys'] f [of "sep" y ys']
    by simp
qed

lemma edo_keys_sorted:
  "\<exists>items'. ensure_deterministic_output (JObj items) = JObj items' \<and> sorted (map fst items')
      \<and> set (map fst items') = set (map fst items)"
proof -
  let ?items' = "map (\<lambda>item. (fst item, ensure_deterministic_output (snd item))) (sort_key fst items)"
  have m: "map fst ?items' = map fst (sort_key fst items)"
    by (simp add: comp_def)
  have "sorted (map fst (sort_key fst items))"
    by (rule sorted_sort_key)
  then have s: "sorted (map fst ?items')" by (simp only: m)
  have "set (map fst (sort_key fst items)) = set (map fst items)"
    by simp
  then have e: "set (map fst ?items') = set (map fst items)" by (simp only: m)
  have "ensure_deterministic_output (JObj items) = JObj ?items'" by simp
  with s e show ?thesis by blast
qed

text \<open>
  Claim C9, as the code has it. When the temporary file can be written,
  \<open>save_json_atomic\<close> succeeds, the destination holds the \<open>json.dump\<close> text of the payload
  as it was passed, and the temporary file is gone. That text lists the items of a
  dictionary in the order the payload holds them: the text of the items \<open>items1\<close> comes
  before the text of the items \<open>items2\<close>. The keys are sorted by
  \<open>ensure_deterministic_output\<close>, which \<open>save_json_atomic\<close> does not apply.
\<close>

theorem save_json_atomic_keeps_payload_order:
  "(can_write \<longrightarrow>
      (case save_json_atomic can_write copy_ok stamp data create_backup st of
         (ok, st') \<Rightarrow> ok \<and> destination st' = Some (json_dumps 0 data) \<and> temporary st' = None))
   \<and> (items1 \<noteq> [] \<and> items2 \<noteq> [] \<longrightarrow>
        json_dumps level (JObj (items1 @ items2)) =
          ''{'' @ newline_indent (Suc level)
          @ str_join ('','' @ newline_indent (Suc level)) (map (json_item (Suc level)) items1)
          @ '','' @ newline_indent (Suc level)
          @ str_join ('','' @ newline_indent (Suc level)) (map (json_item (Suc level)) items2)
          @ newline_indent level @ ''}'')
   \<and> (\<exists>items'. ensure_deterministic_output (JObj items) = JObj items' \<and> sorted (map fst items')
         \<and> set (map fst items') = set (map fst items))"
proof -
  have a: "case save_json_atomic can_write copy_ok stamp data create_backup st of
         (ok, st') \<Rightarrow> ok \<and> destination st' = Some (json_dumps 0 data) \<and> temporary st' = None"
    if can_write
    using that by (simp add: save_json_atomic_def Let_def split: option.splits)
  have b: "json_dumps level (JObj (items1 @ items2)) =
          ''{'' @ newline_indent (Suc level)
          @ str_join ('','' @ newline_indent (Suc level)) (map (json_item (Suc level)) items1)
          @ '','' @ newline_indent (Suc level)
          @ str_join ('','' @ newline_indent (Suc level)) (map (json_item (Suc level)) items2)
          @ newline_indent level @ ''}''"
    if "items1 \<noteq> [] \<and> items2 \<noteq> []"
  proof -
    have "(\<lambda>item. json_string (fst item) @ '': '' @ json_dumps (Suc level) (snd item))
            = json_item (Suc level)"
      by (rule ext) (simp add: json_item_def)
    then show ?thesis using that
      by (simp add: str_join_append)
  qed
  show ?thesis using a b edo_keys_sorted by blast
qed

theorem save_json_atomic_keeps_payload_order_witness:
  "(case save_json_atomic True True ''20250101_120000'' unsorted_payload True empty_store of
      (ok, st') \<Rightarrow> ok \<and> destination st' = Some (json_dumps 0 unsorted_payload)
                   \<and> temporary st' = None)
   \<and> [(''b'', JInt 1)] \<noteq> [] \<and> [(''a'', JInt 2)] \<noteq> []
   \<and> json_dumps 0 (JObj ([(''b'', JInt 1)] @ [(''a'', JInt 2)])) =
          ''{'' @ newline_indent (Suc 0)
          @ str_join ('','' @ newline_indent (Suc 0)) (map (json_item (Suc 0)) [(''b'', JInt 1)])
          @ '','' @ newline_indent (Suc 0)
          @ str_join ('','' @ newline_indent (Suc 0)) (map (json_item (Suc 0)) [(''a'', JInt 2)])
          @ newline_indent 0 @ ''}''"
proof -
  have h: "[(''b'', JInt 1)] \<noteq> [] \<and> [(''a'', JInt 2)] \<noteq> []" by simp
  note t = save_json_atomic_keeps_payload_order [where can_write = True and copy_ok = True
      and stamp = "''20250101_120000''" and data = unsorted_payload and create_backup = True
      and st = empty_store and ?items1.0 = "[(''b'', JInt 1)]" and ?items2.0 = "[(''a'', JInt 2)]"
      and level = 0 and items = "[]"]
  have c1: "case save_json_atomic True True ''20250101_120000'' unsorted_payload True empty_store of
      (ok, st') \<Rightarrow> ok \<and> destination st' = Some (json_dumps 0 unsorted_payload)
                   \<and> temporary st' = None"
    using t [THEN conjunct1] by (rule mp) (rule TrueI)
  have c2: "json_dumps 0 (JObj ([(''b'', JInt 1)] @ [(''a'', JInt 2)])) =
          ''{'' @ newline_indent (Suc 0)
          @ str_join ('','' @ newline_indent (Suc 0)) (map (json_item (Suc 0)) [(''b'', JInt 1)])
          @ '','' @ newline_indent (Suc 0)
          @ str_join ('','' @ newline_indent (Suc 0)) (map (json_item (Suc 0)) [(''a'', JInt 2)])
          @ newline_indent 0 @ ''}''"
    using t [THEN conjunct2, THEN conjunct1] h by (rule mp)
  show ?thesis using c1 c2 h by (intro conjI) simp_all
qed

text \<open>Counterexample to claim C9 as stated: the payload with the keys \<open>b\<close>, \<open>a\<close> in this
  order is written with \<open>b\<close> before \<open>a\<close>; sorted, \<open>a\<close> would come first.\<close>

theorem save_json_atomic_writes_unsorted_keys:
  "destination (snd (save_json_atomic True True ''20250101_120000'' unsorted_payload True empty_store))
    = Some (''{'' @ [CHR 0x0A] @ ''  '' @ [CHR 0x22] @ ''b'' @ [CHR 0x22] @ '': 1,'' @ [CHR 0x0A]
            @ ''  '' @ [CHR 0x22] @ ''a'' @ [CHR 0x22] @ '': 2'' @ [CHR 0x0A] @ ''}'')
   \<and> json_dumps 0 (ensure_deterministic_output unsorted_payload)
     = ''{'' @ [CHR 0x0A] @ ''  '' @ [CHR 0x22] @ ''a'' @ [CHR 0x22] @ '': 2,'' @ [CHR 0x0A]
            @ ''  '' @ [CHR 0x22] @ ''b'' @ [CHR 0x22] @ '': 1'' @ [CHR 0x0A] @ ''}''
   \<and> \<not> sorted [''b'', ''a'']"
proof -
  have "\<not> sorted [''b'', ''a'']" by simp
  moreover have "destination (snd (save_json_atomic True True ''20250101_120000'' unsorted_payload True empty_store))
    = Some (''{'' @ [CHR 0x0A] @ ''  '' @ [CHR 0x22] @ ''b'' @ [CHR 0x22] @ '': 1,'' @ [CHR 0x0A]
            @ ''  '' @ [CHR 0x22] @ ''a'' @ [CHR 0x22] @ '': 2'' @ [CHR 0x0A] @ ''}'')"
    by code_simp
  moreover have "json_dumps 0 (ensure_deterministic_output unsorted_payload)
     = ''{'' @ [CHR 0x0A] @ ''  '' @ [CHR 0x22] @ ''a'' @ [CHR 0x22] @ '': 2,'' @ [CHR 0x0A]
            @ ''  '' @ [CHR 0x22] @ ''b'' @ [CHR 0x22] @ '': 1'' @ [CHR 0x0A] @ ''}''"
    by code_simp
  ultimately show ?thesis by blast
qed

end
